theory Spec2Isabelle
  imports Main "HOL-Library.Char_ord" "HOL-Library.List_Lexorder" "HOL-Library.Sublist"
begin

section \<open>Data model\<close>

text \<open>
  The shapes that \<^verbatim>\<open>continue.ts\<close> and \<^verbatim>\<open>anthropic_adapter.ts\<close> exchange.
  TypeScript objects are records; an optional or nullable property is an \<open>option\<close>;
  string-literal unions (\<^verbatim>\<open>'user' | 'assistant'\<close>, \<^verbatim>\<open>'stop' | 'length' | ...\<close>) stay strings,
  as they are at run time. Several interfaces share property names
  (\<^verbatim>\<open>role\<close>, \<^verbatim>\<open>content\<close>, \<^verbatim>\<open>finish_reason\<close>, \<^verbatim>\<open>messages\<close>); these are written qualified
  by their record.
\<close>

record Message =
  role :: string
  content :: string

text \<open>
  Token counts are JavaScript numbers, which the code adds. The model holds the
  integer-valued ones, the two infinities and \<^verbatim>\<open>NaN\<close>; fractions are outside it. The sum of
  two integer-valued numbers is their exact sum rounded to the nearest double, ties to the
  even significand of 53 bits; from \<open>2 ^ 1024\<close> on it is infinite. \<^verbatim>\<open>max_tokens\<close> and the
  HTTP status, which the code only compares and passes on, are integers.
\<close>

datatype number = Finite int | PosInfinity | NegInfinity | NaN

function bit_length :: "int \<Rightarrow> nat" where
  "bit_length n = (if n \<le> 0 then 0 else Suc (bit_length (n div 2)))"
  by pat_completeness auto
termination
  by (relation "measure nat") auto

declare bit_length.simps [simp del]

text \<open>\<open>a\<close> rounded to a multiple of \<open>u\<close>, the nearest one; of two equally near, the even one.\<close>

definition ties_to_even :: "int \<Rightarrow> int \<Rightarrow> int" where
  "ties_to_even a u =
     (if 2 * (a mod u) > u \<or> (2 * (a mod u) = u \<and> odd (a div u))
      then a div u + 1 else a div u) * u"

definition round_to_double :: "int \<Rightarrow> number" where
  "round_to_double z =
     (if \<bar>z\<bar> < 2 ^ 53 then Finite z
      else if ties_to_even \<bar>z\<bar> (2 ^ (bit_length \<bar>z\<bar> - 53)) \<ge> 2 ^ 1024
      then (if z < 0 then NegInfinity else PosInfinity)
      else if z < 0 then Finite (- ties_to_even \<bar>z\<bar> (2 ^ (bit_length \<bar>z\<bar> - 53)))
      else Finite (ties_to_even \<bar>z\<bar> (2 ^ (bit_length \<bar>z\<bar> - 53))))"

text \<open>\<^verbatim>\<open>a + b\<close> on numbers.\<close>

fun js_add :: "number \<Rightarrow> number \<Rightarrow> number" where
  "js_add (Finite a) (Finite b) = round_to_double (a + b)"
| "js_add NaN b = NaN"
| "js_add a NaN = NaN"
| "js_add PosInfinity NegInfinity = NaN"
| "js_add NegInfinity PosInfinity = NaN"
| "js_add PosInfinity b = PosInfinity"
| "js_add a PosInfinity = PosInfinity"
| "js_add NegInfinity b = NegInfinity"
| "js_add a NegInfinity = NegInfinity"

record TokenUsage =
  prompt_tokens :: "number option"
  completion_tokens :: "number option"
  total_tokens :: "number option"
  finish_reason :: "string option"

record AdapterResponsePayload =
  role :: string
  content :: string
  ai_provider_id :: string
  system_prompt_id :: "string option"
  token_usage :: "TokenUsage option"
  finish_reason :: "string option"

record ChatApiRequest =
  message :: "string option"
  messages :: "Message list option"
  providerId :: string
  promptId :: string
  max_tokens_to_generate :: "int option"

section \<open>The continuation loop (\<^verbatim>\<open>supabase/functions/chat/continue.ts\<close>)\<close>

text \<open>
  The calls to the logger change nothing the function returns or sends and are left out;
  \<^verbatim>\<open>await\<close> is sequencing.
\<close>

definition MAX_CONTINUATIONS :: nat where
  "MAX_CONTINUATIONS = 4"

text \<open>
  \<^verbatim>\<open>x || 0\<close> on a count: \<^verbatim>\<open>undefined\<close>, \<^verbatim>\<open>0\<close> and \<^verbatim>\<open>NaN\<close> are falsy and give \<open>0\<close>, any
  other number is kept.
\<close>

fun or_zero :: "number option \<Rightarrow> number" where
  "or_zero None = Finite 0"
| "or_zero (Some (Finite n)) = (if n = 0 then Finite 0 else Finite n)"
| "or_zero (Some NaN) = Finite 0"
| "or_zero (Some x) = x"

text \<open>
  The provider adapter is an effect outside the loop: a call takes the adapter's state,
  the request, the model identifier and the API key, and either throws (\<open>Inl\<close>) or
  returns a payload (\<open>Inr\<close>), with the adapter's next state.
\<close>

type_synonym ('s, 'e, 'r, 'p) adapter =
  "'s \<Rightarrow> 'r ChatApiRequest_scheme \<Rightarrow> string \<Rightarrow> string
     \<Rightarrow> ('e + 'p AdapterResponsePayload_scheme) \<times> 's"

text \<open>
  What the loop can throw: whatever the adapter threw (the loop has no handler), or its
  own \<^verbatim>\<open>Error("AI provider did not return a response in the continuation loop.")\<close>.
\<close>

datatype 'e loop_error = AdapterThrew 'e | NoResponseInLoop

text \<open>The loop's local variables.\<close>

record ('r, 'p) loop_vars =
  accumulatedContent :: string
  accumulatedPromptTokens :: number
  accumulatedCompletionTokens :: number
  currentRequest :: "'r ChatApiRequest_scheme"
  continuationCount :: nat
  lastResponse :: "'p AdapterResponsePayload_scheme option"

text \<open>\<^verbatim>\<open>const finishReason = token_usage?.finish_reason\<close>.\<close>

definition finishReason :: "TokenUsage option \<Rightarrow> string option" where
  "finishReason tu = (case tu of None \<Rightarrow> None | Some u \<Rightarrow> TokenUsage.finish_reason u)"

text \<open>
  Lines 58 to 67: add the call's counts (only when \<^verbatim>\<open>token_usage\<close> is not null), append
  its content, remember it as the last response.
\<close>

definition accumulate ::
  "('r, 'p) loop_vars \<Rightarrow> 'p AdapterResponsePayload_scheme \<Rightarrow> ('r, 'p) loop_vars" where
  "accumulate v response =
     (let v1 = (case token_usage response of
                  None \<Rightarrow> v
                | Some u \<Rightarrow>
                    v\<lparr>accumulatedPromptTokens :=
                        js_add (accumulatedPromptTokens v) (or_zero (prompt_tokens u)),
                      accumulatedCompletionTokens :=
                        js_add (accumulatedCompletionTokens v)
                          (or_zero (completion_tokens u))\<rparr>)
      in v1\<lparr>accumulatedContent :=
               accumulatedContent v1 @ AdapterResponsePayload.content response,
             lastResponse := Some response\<rparr>)"

text \<open>
  Lines 81 to 84: \<^verbatim>\<open>continuationCount++\<close> and
  \<^verbatim>\<open>currentRequest.messages.push({ role: "assistant", content: response.content })\<close>.
  \<^verbatim>\<open>messages\<close> was made an array before the loop; the \<open>None\<close> case is written as the
  same array for totality. The copy of the request is shallow, so the array pushed to can
  be the caller's own; what the caller sees of it afterwards is outside this model.
\<close>

definition push_partial ::
  "('r, 'p) loop_vars \<Rightarrow> 'p AdapterResponsePayload_scheme \<Rightarrow> ('r, 'p) loop_vars" where
  "push_partial v response =
     v\<lparr>continuationCount := continuationCount v + 1,
       currentRequest := (currentRequest v)\<lparr>messages :=
         Some ((case messages (currentRequest v) of None \<Rightarrow> [] | Some ms \<Rightarrow> ms)
               @ [\<lparr>Message.role = ''assistant'',
                   content = AdapterResponsePayload.content response\<rparr>])\<rparr>\<rparr>"

text \<open>
  The \<^verbatim>\<open>while (continuationCount <= MAX_CONTINUATIONS)\<close> loop, lines 47 to 86. The result
  is the thrown error or the variables at loop exit, and the adapter's state.
\<close>

function continuation_loop ::
  "('s, 'e, 'r, 'p) adapter \<Rightarrow> string \<Rightarrow> string \<Rightarrow> ('r, 'p) loop_vars \<Rightarrow> 's
     \<Rightarrow> ('e loop_error + ('r, 'p) loop_vars) \<times> 's" where
  "continuation_loop adapter providerApiIdentifier apiKey v s =
     (if continuationCount v \<le> MAX_CONTINUATIONS then
        (case adapter s (currentRequest v) providerApiIdentifier apiKey of
           (Inl e, s') \<Rightarrow> (Inl (AdapterThrew e), s')
         | (Inr response, s') \<Rightarrow>
             (let v' = accumulate v response in
              if finishReason (token_usage response) \<noteq> Some ''length''
                 \<or> continuationCount v' \<ge> MAX_CONTINUATIONS
              then (Inr v', s')
              else continuation_loop adapter providerApiIdentifier apiKey
                     (push_partial v' response) s'))
      else (Inr v, s))"
  by pat_completeness auto
termination
  by (relation "measure (\<lambda>(adapter, p, k, v, s). Suc MAX_CONTINUATIONS - continuationCount v)")
     (auto simp: accumulate_def push_partial_def Let_def split: option.splits)

text \<open>Lines 88 to 109: the check on \<^verbatim>\<open>lastResponse\<close> and the combined payload.\<close>

definition finalize ::
  "('r, 'p) loop_vars \<Rightarrow> 'e loop_error + 'p AdapterResponsePayload_scheme" where
  "finalize v =
     (case lastResponse v of
        None \<Rightarrow> Inl NoResponseInLoop
      | Some last_response \<Rightarrow>
          Inr (last_response\<lparr>
                 AdapterResponsePayload.content := accumulatedContent v,
                 token_usage := Some \<lparr>
                   prompt_tokens = Some (accumulatedPromptTokens v),
                   completion_tokens = Some (accumulatedCompletionTokens v),
                   total_tokens =
                     Some (js_add (accumulatedPromptTokens v)
                             (accumulatedCompletionTokens v)),
                   finish_reason = Some ''stop''\<rparr>\<rparr>))"

text \<open>Lines 31 to 45: the variables before the first iteration.\<close>

definition initial_vars :: "'r ChatApiRequest_scheme \<Rightarrow> ('r, 'p) loop_vars" where
  "initial_vars initialApiRequest =
     \<lparr>accumulatedContent = [],
      accumulatedPromptTokens = Finite 0,
      accumulatedCompletionTokens = Finite 0,
      currentRequest =
        (case messages initialApiRequest of
           None \<Rightarrow> initialApiRequest\<lparr>messages := Some []\<rparr>
         | Some ms \<Rightarrow> initialApiRequest),
      continuationCount = 0,
      lastResponse = None\<rparr>"

definition handleContinuationLoop ::
  "('s, 'e, 'r, 'p) adapter \<Rightarrow> 'r ChatApiRequest_scheme \<Rightarrow> string \<Rightarrow> string \<Rightarrow> 's
     \<Rightarrow> ('e loop_error + 'p AdapterResponsePayload_scheme) \<times> 's" where
  "handleContinuationLoop adapter initialApiRequest providerApiIdentifier apiKey s =
     (case continuation_loop adapter providerApiIdentifier apiKey
             (initial_vars initialApiRequest) s of
        (Inl e, s') \<Rightarrow> (Inl e, s')
      | (Inr v, s') \<Rightarrow> (finalize v, s'))"

section \<open>The Anthropic adapter (\<^verbatim>\<open>supabase/functions/_shared/ai_service/anthropic_adapter.ts\<close>)\<close>

definition ANTHROPIC_API_BASE :: string where
  "ANTHROPIC_API_BASE = ''https://api.anthropic.com/v1''"

definition ANTHROPIC_VERSION :: string where
  "ANTHROPIC_VERSION = ''2023-06-01''"

text \<open>
  What \<^verbatim>\<open>fetch\<close> is given: the URL, the headers \<^verbatim>\<open>x-api-key\<close> and
  \<^verbatim>\<open>anthropic-version\<close>, and the JSON body.
\<close>

record AnthropicPayload =
  model :: string
  system :: "string option"
  messages :: "Message list"
  max_tokens :: int

record HttpRequest =
  url :: string
  x_api_key :: string
  anthropic_version :: string
  body :: AnthropicPayload

text \<open>
  What \<^verbatim>\<open>fetch\<close> resolves to; \<open>json = None\<close> is a body that \<^verbatim>\<open>response.json()\<close>
  rejects. A content block's \<^verbatim>\<open>type\<close> and \<^verbatim>\<open>text\<close> are \<open>block_type\<close> and \<open>block_text\<close>.
\<close>

record ContentBlock =
  block_type :: string
  block_text :: string

record Usage =
  input_tokens :: "number option"
  output_tokens :: "number option"

record JsonResponse =
  content :: "ContentBlock list option"
  usage :: "Usage option"
  stop_reason :: "string option"

record HttpResponse =
  ok :: bool
  status :: int
  statusText :: string
  json :: "JsonResponse option"

text \<open>
  \<^verbatim>\<open>fetch\<close> is an effect: it takes the state of the outside world and the request, and
  either rejects (\<open>Inl\<close>, a network failure) or resolves to a response.
\<close>

type_synonym ('w, 'x) fetch = "'w \<Rightarrow> HttpRequest \<Rightarrow> ('x + HttpResponse) \<times> 'w"

text \<open>Every way \<^verbatim>\<open>sendMessage\<close> throws, in source order.\<close>

datatype 'x adapter_error =
    NoValidMessages
  | HistoryFormatInvalid
  | StringifyRangeError
  | FetchRejected 'x
  | ApiRequestFailed int string
  | JsonRejected
  | EmptyResponse

text \<open>
  \<^verbatim>\<open>modelIdentifier.replace(/^anthropic-/i, '')\<close>: the prefix is dropped whatever the case
  of its letters.
\<close>

definition ascii_lower :: "char \<Rightarrow> char" where
  "ascii_lower c =
     (let n = (of_char c :: nat) in if 65 \<le> n \<and> n \<le> 90 then char_of (n + 32) else c)"

definition modelApiName :: "string \<Rightarrow> string" where
  "modelApiName modelIdentifier =
     (if map ascii_lower (take 10 modelIdentifier) = ''anthropic-''
      then drop 10 modelIdentifier else modelIdentifier)"

text \<open>Lines 54 to 57: the history, then the new message as a user message when it is truthy.\<close>

definition combinedMessages :: "'r ChatApiRequest_scheme \<Rightarrow> Message list" where
  "combinedMessages request =
     (case ChatApiRequest.messages request of None \<Rightarrow> [] | Some ms \<Rightarrow> ms)
     @ (case message request of
          None \<Rightarrow> []
        | Some m \<Rightarrow> if m \<noteq> [] then [\<lparr>Message.role = ''user'', content = m\<rparr>] else [])"

text \<open>
  Lines 58 to 65, the first loop, with its two variables: a system message with content
  replaces \<^verbatim>\<open>systemPrompt\<close>; user and assistant messages are appended to
  \<^verbatim>\<open>preliminaryMessages\<close>; anything else is dropped.
\<close>

fun first_pass :: "Message list \<Rightarrow> string \<Rightarrow> Message list \<Rightarrow> string \<times> Message list" where
  "first_pass [] systemPrompt preliminaryMessages = (systemPrompt, preliminaryMessages)"
| "first_pass (m # rest) systemPrompt preliminaryMessages =
     (if Message.role m = ''system'' \<and> Message.content m \<noteq> []
      then first_pass rest (Message.content m) preliminaryMessages
      else if Message.role m = ''user'' \<or> Message.role m = ''assistant''
      then first_pass rest systemPrompt
             (preliminaryMessages
              @ [\<lparr>Message.role = Message.role m, content = Message.content m\<rparr>])
      else first_pass rest systemPrompt preliminaryMessages)"

text \<open>
  Lines 66 to 74, the second loop: a message is kept when its role is the expected one,
  which then flips; otherwise it is skipped.
\<close>

fun second_pass :: "Message list \<Rightarrow> string \<Rightarrow> Message list \<Rightarrow> Message list" where
  "second_pass [] expectedRole anthropicMessages = anthropicMessages"
| "second_pass (m # rest) expectedRole anthropicMessages =
     (if Message.role m = expectedRole
      then second_pass rest (if expectedRole = ''user'' then ''assistant'' else ''user'')
             (anthropicMessages @ [m])
      else second_pass rest expectedRole anthropicMessages)"

text \<open>
  Lines 84 to 88: \<^verbatim>\<open>(x && x > 0) ? x : 4096\<close>; \<^verbatim>\<open>undefined\<close> and \<open>0\<close> are falsy.
\<close>

definition maxTokensForPayload :: "int option \<Rightarrow> int" where
  "maxTokensForPayload requested =
     (case requested of
        None \<Rightarrow> 4096
      | Some n \<Rightarrow> if n \<noteq> 0 \<and> n > 0 then n else 4096)"

text \<open>
  The values of \<^verbatim>\<open>systemPrompt\<close> and \<^verbatim>\<open>anthropicMessages\<close> after the two loops, which
  start from \<^verbatim>\<open>''\<close>, \<^verbatim>\<open>[]\<close> and \<^verbatim>\<open>expectedRole = 'user'\<close>.
\<close>

definition systemPrompt :: "'r ChatApiRequest_scheme \<Rightarrow> string" where
  "systemPrompt request = fst (first_pass (combinedMessages request) [] [])"

definition anthropicMessages :: "'r ChatApiRequest_scheme \<Rightarrow> Message list" where
  "anthropicMessages request =
     second_pass (snd (first_pass (combinedMessages request) [] [])) ''user'' []"

text \<open>Lines 50 to 95: everything before \<^verbatim>\<open>fetch\<close>; the two throws, or the payload.\<close>

definition anthropicPayload ::
  "'r ChatApiRequest_scheme \<Rightarrow> string \<Rightarrow> 'x adapter_error + AnthropicPayload" where
  "anthropicPayload request modelIdentifier =
     (if length (anthropicMessages request) = 0 then Inl NoValidMessages
      else if Message.role (anthropicMessages request ! (length (anthropicMessages request) - 1))
                \<noteq> ''user''
      then Inl HistoryFormatInvalid
      else Inr \<lparr>model = modelApiName modelIdentifier,
                system = (if systemPrompt request \<noteq> [] then Some (systemPrompt request)
                          else None),
                messages = anthropicMessages request,
                max_tokens = maxTokensForPayload (max_tokens_to_generate request)\<rparr>)"

text \<open>
  \<^verbatim>\<open>String.prototype.trim\<close> on the white space and line terminators among the code units
  0 to 255 that one character of this string type holds: tab, line feed, vertical tab,
  form feed, carriage return, space and no-break space (160).
\<close>

definition is_white_space :: "char \<Rightarrow> bool" where
  "is_white_space c \<longleftrightarrow> (of_char c :: nat) \<in> {9, 10, 11, 12, 13, 32, 160}"

definition trim :: "string \<Rightarrow> string" where
  "trim s = rev (dropWhile is_white_space (rev (dropWhile is_white_space s)))"

text \<open>Lines 126 to 144: the provider's \<^verbatim>\<open>stop_reason\<close>, standardized.\<close>

definition standard_finish_reason :: "string option \<Rightarrow> string" where
  "standard_finish_reason sr =
     (case sr of
        None \<Rightarrow> ''unknown''
      | Some r \<Rightarrow>
          if r = [] then ''unknown''
          else if r = ''end_turn'' \<or> r = ''stop_sequence'' then ''stop''
          else if r = ''max_tokens'' then ''length''
          else if r = ''tool_use'' then ''tool_calls''
          else ''unknown'')"

text \<open>Lines 120 to 124: the usage object, or null.\<close>

definition tokenUsage :: "Usage option \<Rightarrow> TokenUsage option" where
  "tokenUsage u =
     (case u of
        None \<Rightarrow> None
      | Some us \<Rightarrow>
          Some \<lparr>prompt_tokens = input_tokens us,
                completion_tokens = output_tokens us,
                total_tokens =
                  Some (js_add (or_zero (input_tokens us)) (or_zero (output_tokens us))),
                finish_reason = None\<rparr>)"

text \<open>Lines 106 to 156: everything after \<^verbatim>\<open>fetch\<close> has resolved.\<close>

definition adapterResponse ::
  "'r ChatApiRequest_scheme \<Rightarrow> HttpResponse \<Rightarrow> 'x adapter_error + AdapterResponsePayload" where
  "adapterResponse request response =
     (if \<not> ok response then Inl (ApiRequestFailed (status response) (statusText response))
      else case json response of
        None \<Rightarrow> Inl JsonRejected
      | Some jsonResponse \<Rightarrow>
          (let assistantMessageContent =
                 (case JsonResponse.content jsonResponse of
                    Some (block # _) \<Rightarrow> if block_type block = ''text'' then trim (block_text block) else []
                  | _ \<Rightarrow> [])
           in if assistantMessageContent = [] then Inl EmptyResponse
              else Inr \<lparr>AdapterResponsePayload.role = ''assistant'',
                        content = assistantMessageContent,
                        ai_provider_id = providerId request,
                        system_prompt_id =
                          (if promptId request \<noteq> ''__none__'' then Some (promptId request)
                           else None),
                        token_usage = tokenUsage (usage jsonResponse),
                        finish_reason =
                          Some (standard_finish_reason (stop_reason jsonResponse))\<rparr>))"

text \<open>
  \<^verbatim>\<open>AnthropicAdapter.sendMessage\<close>; the API key is the constructor's. The body of the
  request is \<^verbatim>\<open>JSON.stringify(anthropicPayload)\<close>, evaluated before \<^verbatim>\<open>fetch\<close> is called: it
  throws a \<^verbatim>\<open>RangeError\<close> when the text would be longer than the engine's strings can be.
  Which payloads stringify is the engine's matter and a parameter here. The result is what
  is thrown or returned, and the state of the world after it.
\<close>

definition sendMessage ::
  "string \<Rightarrow> (AnthropicPayload \<Rightarrow> bool) \<Rightarrow> ('w, 'x) fetch \<Rightarrow> 'w
     \<Rightarrow> 'r ChatApiRequest_scheme \<Rightarrow> string
     \<Rightarrow> ('x adapter_error + AdapterResponsePayload) \<times> 'w" where
  "sendMessage apiKey stringifies fetch w request modelIdentifier =
     (case anthropicPayload request modelIdentifier of
        Inl e \<Rightarrow> (Inl e, w)
      | Inr payload \<Rightarrow>
          if \<not> stringifies payload then (Inl StringifyRangeError, w)
          else
            (case fetch w \<lparr>url = ANTHROPIC_API_BASE @ ''/messages'',
                           x_api_key = apiKey,
                           anthropic_version = ANTHROPIC_VERSION,
                           body = payload\<rparr> of
               (Inl x, w') \<Rightarrow> (Inl (FetchRejected x), w')
             | (Inr response, w') \<Rightarrow> (adapterResponse request response, w')))"


section \<open>The canonical path builder\<close>

text \<open>
  The repository's \<^verbatim>\<open>canonical_context_builder.ts\<close> is not in the source tree covered
  here; its types and its function follow the specification, sections 3 and 4.1. A document's
  \<^verbatim>\<open>id\<close> is \<open>doc_id\<close>. The contribution type and the model slug of a document may
  be missing, in which case the builder omits what it would derive from them.
\<close>

record SourceDocument =
  doc_id :: string
  contribution_type :: "string option"
  model_name :: "string option"
  document_relationships :: "string \<rightharpoonup> string"

record CanonicalPathParams =
  contributionType :: string
  sourceModelSlugs :: "string list option"
  sourceAnchorType :: "string option"
  sourceAnchorModelSlug :: "string option"
  pairedModelSlug :: "string option"

text \<open>
  Modelled from the spec: \<^verbatim>\<open>createCanonicalPathParams(sourceDocs, outputType, anchorDoc)\<close>,
  whose source file is missing. It "collects every distinct model slug across
  \<^verbatim>\<open>sourceDocs\<close>, deduplicates, sorts lexicographically ascending"; takes the anchor's
  type and slug from \<^verbatim>\<open>anchorDoc\<close>; and "if exactly one other document besides the anchor
  participates", takes that document's slug as \<^verbatim>\<open>pairedModelSlug\<close>. Empty
  \<^verbatim>\<open>sourceDocs\<close> give an empty sequence.
\<close>

definition createCanonicalPathParams ::
  "'d SourceDocument_scheme list \<Rightarrow> string \<Rightarrow> 'd SourceDocument_scheme \<Rightarrow> CanonicalPathParams" where
  "createCanonicalPathParams sourceDocs outputType anchorDoc =
     \<lparr>contributionType = outputType,
      sourceModelSlugs = Some (sort (remdups (List.map_filter model_name sourceDocs))),
      sourceAnchorType = contribution_type anchorDoc,
      sourceAnchorModelSlug = model_name anchorDoc,
      pairedModelSlug =
        (case filter (\<lambda>d. doc_id d \<noteq> doc_id anchorDoc) sourceDocs of
           [other] \<Rightarrow> model_name other
         | _ \<Rightarrow> None)\<rparr>"

section \<open>Test doubles and sample data\<close>

text \<open>
  A spy around an adapter: it behaves as the adapter does and appends the outcome of
  every call to a log. The length of the log is the number of \<^verbatim>\<open>sendMessage\<close> calls.
\<close>

definition recording ::
  "('s, 'e, 'r, 'p) adapter
     \<Rightarrow> ('s \<times> ('e + 'p AdapterResponsePayload_scheme) list, 'e, 'r, 'p) adapter" where
  "recording adapter =
     (\<lambda>(s, log) request providerApiIdentifier apiKey.
        case adapter s request providerApiIdentifier apiKey of
          (result, s') \<Rightarrow> (result, (s', log @ [result])))"

text \<open>An adapter that plays a script of outcomes, one per call, and throws when it runs out.\<close>

fun scripted_adapter ::
  "(('e + 'p AdapterResponsePayload_scheme) list, 'e option, 'r, 'p) adapter" where
  "scripted_adapter [] request providerApiIdentifier apiKey = (Inl None, [])"
| "scripted_adapter (Inl e # rest) request providerApiIdentifier apiKey = (Inl (Some e), rest)"
| "scripted_adapter (Inr p # rest) request providerApiIdentifier apiKey = (Inr p, rest)"

text \<open>An adapter that returns the same payload at every call.\<close>

definition constant_adapter ::
  "'p AdapterResponsePayload_scheme \<Rightarrow> (unit, unit, 'r, 'p) adapter" where
  "constant_adapter response = (\<lambda>s request providerApiIdentifier apiKey. (Inr response, s))"

text \<open>
  A spy around \<^verbatim>\<open>fetch\<close>: the world is the list of requests sent so far, and the reply
  is a function of the request.
\<close>

definition recording_fetch :: "(HttpRequest \<Rightarrow> 'x + HttpResponse) \<Rightarrow> (HttpRequest list, 'x) fetch" where
  "recording_fetch reply = (\<lambda>sent request. (reply request, sent @ [request]))"

text \<open>What a call measures: the loop's finish reason and the counts it adds.\<close>

definition reports_length :: "'p AdapterResponsePayload_scheme \<Rightarrow> bool" where
  "reports_length response \<longleftrightarrow> finishReason (token_usage response) = Some ''length''"

definition call_prompt_tokens :: "'p AdapterResponsePayload_scheme \<Rightarrow> number" where
  "call_prompt_tokens response =
     (case token_usage response of
        None \<Rightarrow> Finite 0
      | Some u \<Rightarrow> or_zero (prompt_tokens u))"

definition call_completion_tokens :: "'p AdapterResponsePayload_scheme \<Rightarrow> number" where
  "call_completion_tokens response =
     (case token_usage response of
        None \<Rightarrow> Finite 0
      | Some u \<Rightarrow> or_zero (completion_tokens u))"

text \<open>
  One step of the running totals: a call with \<^verbatim>\<open>token_usage\<close> adds its count with
  \<^verbatim>\<open>+=\<close>, a call without leaves the total as it is.
\<close>

definition add_prompt_tokens ::
  "number \<Rightarrow> 'p AdapterResponsePayload_scheme \<Rightarrow> number" where
  "add_prompt_tokens running response =
     (case token_usage response of
        None \<Rightarrow> running
      | Some u \<Rightarrow> js_add running (or_zero (prompt_tokens u)))"

definition add_completion_tokens ::
  "number \<Rightarrow> 'p AdapterResponsePayload_scheme \<Rightarrow> number" where
  "add_completion_tokens running response =
     (case token_usage response of
        None \<Rightarrow> running
      | Some u \<Rightarrow> js_add running (or_zero (completion_tokens u)))"

text \<open>Sample payloads: one cut off by the length limit, one complete.\<close>

definition length_response :: AdapterResponsePayload where
  "length_response =
     \<lparr>AdapterResponsePayload.role = ''assistant'', content = ''ab'', ai_provider_id = ''p1'',
      system_prompt_id = None,
      token_usage = Some \<lparr>prompt_tokens = Some (Finite 10), completion_tokens = Some (Finite 5),
                          total_tokens = Some (Finite 15), finish_reason = Some ''length''\<rparr>,
      finish_reason = Some ''length''\<rparr>"

definition stop_response :: AdapterResponsePayload where
  "stop_response =
     \<lparr>AdapterResponsePayload.role = ''assistant'', content = ''cd'', ai_provider_id = ''p1'',
      system_prompt_id = None,
      token_usage = Some \<lparr>prompt_tokens = Some (Finite 12), completion_tokens = Some (Finite 7),
                          total_tokens = Some (Finite 19), finish_reason = Some ''stop''\<rparr>,
      finish_reason = Some ''stop''\<rparr>"


text \<open>
  Two payloads with large counts: \<open>2 ^ 53\<close> prompt tokens, cut off by the length limit;
  then one prompt token more, complete.
\<close>

definition huge_count_response :: AdapterResponsePayload where
  "huge_count_response =
     \<lparr>AdapterResponsePayload.role = ''assistant'', content = ''ab'', ai_provider_id = ''p1'',
      system_prompt_id = None,
      token_usage = Some \<lparr>prompt_tokens = Some (Finite 9007199254740992),
                          completion_tokens = Some (Finite 5),
                          total_tokens = Some (Finite 9007199254740997),
                          finish_reason = Some ''length''\<rparr>,
      finish_reason = Some ''length''\<rparr>"

definition one_more_response :: AdapterResponsePayload where
  "one_more_response =
     \<lparr>AdapterResponsePayload.role = ''assistant'', content = ''cd'', ai_provider_id = ''p1'',
      system_prompt_id = None,
      token_usage = Some \<lparr>prompt_tokens = Some (Finite 1), completion_tokens = Some (Finite 7),
                          total_tokens = Some (Finite 8), finish_reason = Some ''stop''\<rparr>,
      finish_reason = Some ''stop''\<rparr>"

definition request0 :: ChatApiRequest where
  "request0 = \<lparr>message = Some ''hello world'', messages = None, providerId = ''p1'',
               promptId = ''__none__'', max_tokens_to_generate = None\<rparr>"

text \<open>A provider reply: HTTP 200 with one text block, cut off at the token limit.\<close>

definition ok_response :: HttpResponse where
  "ok_response =
     \<lparr>ok = True, status = 200, statusText = ''OK'',
      json = Some \<lparr>content = Some [\<lparr>block_type = ''text'', block_text = '' hi ''\<rparr>],
                   usage = Some \<lparr>input_tokens = Some (Finite 3), output_tokens = Some (Finite 1)\<rparr>,
                   stop_reason = Some ''max_tokens''\<rparr>\<rparr>"

definition ok_reply :: "HttpRequest \<Rightarrow> unit + HttpResponse" where
  "ok_reply request = Inr ok_response"

text \<open>
  \<^verbatim>\<open>JSON.stringify\<close> on the sample payloads, each of a few hundred characters at most:
  it succeeds.
\<close>

definition sample_stringifies :: "AnthropicPayload \<Rightarrow> bool" where
  "sample_stringifies payload = True"

text \<open>
  Sample requests: a history of five messages with a system prompt and a new message; a
  request with nothing to send; a history that ends with the assistant and an empty new
  message. \<open>history_sent\<close> is the HTTP request the first one leads to.
\<close>

definition history_request :: ChatApiRequest where
  "history_request =
     \<lparr>message = Some ''e'',
      messages = Some [\<lparr>Message.role = ''system'', content = ''be brief''\<rparr>,
                       \<lparr>Message.role = ''user'', content = ''a''\<rparr>,
                       \<lparr>Message.role = ''assistant'', content = ''b''\<rparr>,
                       \<lparr>Message.role = ''user'', content = ''c''\<rparr>,
                       \<lparr>Message.role = ''assistant'', content = ''d''\<rparr>],
      providerId = ''p1'', promptId = ''prompt-7'', max_tokens_to_generate = Some 1000\<rparr>"

definition empty_request :: ChatApiRequest where
  "empty_request = \<lparr>message = None, messages = Some [], providerId = ''p1'',
                    promptId = ''__none__'', max_tokens_to_generate = Some 0\<rparr>"

definition assistant_last_request :: ChatApiRequest where
  "assistant_last_request =
     \<lparr>message = Some [],
      messages = Some [\<lparr>Message.role = ''user'', content = ''a''\<rparr>,
                       \<lparr>Message.role = ''assistant'', content = ''b''\<rparr>],
      providerId = ''p1'', promptId = ''__none__'', max_tokens_to_generate = Some (- 5)\<rparr>"

text \<open>A history that ends with a user message, and a new message.\<close>

definition user_last_request :: ChatApiRequest where
  "user_last_request =
     \<lparr>message = Some ''b'',
      messages = Some [\<lparr>Message.role = ''user'', content = ''a''\<rparr>],
      providerId = ''p1'', promptId = ''__none__'', max_tokens_to_generate = None\<rparr>"

definition history_sent :: HttpRequest where
  "history_sent =
     \<lparr>url = ''https://api.anthropic.com/v1/messages'', x_api_key = ''key'',
      anthropic_version = ''2023-06-01'',
      body = \<lparr>model = ''claude-3'', system = Some ''be brief'',
               messages = [\<lparr>Message.role = ''user'', content = ''a''\<rparr>,
                           \<lparr>Message.role = ''assistant'', content = ''b''\<rparr>,
                           \<lparr>Message.role = ''user'', content = ''c''\<rparr>,
                           \<lparr>Message.role = ''assistant'', content = ''d''\<rparr>,
                           \<lparr>Message.role = ''user'', content = ''e''\<rparr>],
               max_tokens = 1000\<rparr>\<rparr>"

text \<open>Two source documents, by different models.\<close>

definition doc_gpt :: SourceDocument where
  "doc_gpt = \<lparr>doc_id = ''A'', contribution_type = Some ''thesis'',
              model_name = Some ''gpt-x'', document_relationships = Map.empty\<rparr>"

definition doc_claude :: SourceDocument where
  "doc_claude = \<lparr>doc_id = ''B'', contribution_type = Some ''antithesis'',
                 model_name = Some ''claude-y'', document_relationships = Map.empty\<rparr>"

section \<open>Properties of the continuation loop\<close>

lemma accumulate_simps:
  "accumulatedContent (accumulate v r) = accumulatedContent v @ AdapterResponsePayload.content r"
  "accumulatedPromptTokens (accumulate v r) = add_prompt_tokens (accumulatedPromptTokens v) r"
  "accumulatedCompletionTokens (accumulate v r)
     = add_completion_tokens (accumulatedCompletionTokens v) r"
  "lastResponse (accumulate v r) = Some r"
  "continuationCount (accumulate v r) = continuationCount v"
  by (simp_all add: accumulate_def add_prompt_tokens_def add_completion_tokens_def Let_def
        split: option.splits)

lemma push_partial_simps:
  "accumulatedContent (push_partial v r) = accumulatedContent v"
  "accumulatedPromptTokens (push_partial v r) = accumulatedPromptTokens v"
  "accumulatedCompletionTokens (push_partial v r) = accumulatedCompletionTokens v"
  "lastResponse (push_partial v r) = lastResponse v"
  "continuationCount (push_partial v r) = Suc (continuationCount v)"
  by (simp_all add: push_partial_def)

lemma initial_vars_simps:
  "accumulatedContent (initial_vars rq) = []"
  "accumulatedPromptTokens (initial_vars rq) = Finite 0"
  "accumulatedCompletionTokens (initial_vars rq) = Finite 0"
  "continuationCount (initial_vars rq) = 0"
  "lastResponse (initial_vars rq) = None"
  by (simp_all add: initial_vars_def)

text \<open>
  A loop that returns, entered with room for at least one call, seen through a log \<open>lg\<close>
  that every adapter call extends by its outcome: it made the calls \<open>ps\<close>, all but the
  last cut off by length, and stopped at the first other reason or at the cap.
\<close>

lemma loop_returns:
  "\<forall>s rq. lg (snd (a s rq pid key)) = lg s @ [fst (a s rq pid key)] \<Longrightarrow>
   continuationCount v \<le> MAX_CONTINUATIONS \<Longrightarrow>
   continuation_loop a pid key v s = (Inr v', s') \<Longrightarrow>
   \<exists>ps. ps \<noteq> [] \<and> lg s' = lg s @ map Inr ps
      \<and> lastResponse v' = Some (last ps)
      \<and> accumulatedContent v'
          = accumulatedContent v @ concat (map AdapterResponsePayload.content ps)
      \<and> accumulatedPromptTokens v' = foldl add_prompt_tokens (accumulatedPromptTokens v) ps
      \<and> accumulatedCompletionTokens v'
          = foldl add_completion_tokens (accumulatedCompletionTokens v) ps
      \<and> (\<forall>p \<in> set (butlast ps). reports_length p)
      \<and> continuationCount v + length ps \<le> Suc MAX_CONTINUATIONS
      \<and> (reports_length (last ps) \<longrightarrow> continuationCount v + length ps = Suc MAX_CONTINUATIONS)"
proof (induction a pid key v s arbitrary: v' s' rule: continuation_loop.induct)
  case (1 adapter pid key v s)
  obtain r s1 where call: "adapter s (currentRequest v) pid key = (r, s1)"
    by (cases "adapter s (currentRequest v) pid key")
  from "1.prems"(1) call have lg1: "lg s1 = lg s @ [r]"
    by (metis fst_conv snd_conv)
  show ?case
  proof (cases r)
    case (Inl e)
    with "1.prems" call show ?thesis by simp
  next
    case (Inr response)
    show ?thesis
    proof (cases "reports_length response \<and> continuationCount v < MAX_CONTINUATIONS")
      case False
      with "1.prems" call Inr have "v' = accumulate v response" "s' = s1"
        by (auto simp: reports_length_def accumulate_simps Let_def)
      with False "1.prems"(2) lg1 Inr show ?thesis
        by (intro exI[of _ "[response]"]) (auto simp: accumulate_simps)
    next
      case True
      let ?v1 = "push_partial (accumulate v response) response"
      from True "1.prems" call Inr
      have rec: "continuation_loop adapter pid key ?v1 s1 = (Inr v', s')"
        by (auto simp: reports_length_def accumulate_simps Let_def)
      have cnt: "continuationCount ?v1 \<le> MAX_CONTINUATIONS"
        using True by (simp add: push_partial_simps accumulate_simps)
      have neg: "\<not> (finishReason (token_usage response) \<noteq> Some ''length'' \<or>
                  MAX_CONTINUATIONS \<le> continuationCount (accumulate v response))"
        using True by (simp add: reports_length_def accumulate_simps)
      from "1.IH"[OF "1.prems"(2) call[symmetric] Inr refl neg "1.prems"(1) cnt rec]
      obtain ps where ps: "ps \<noteq> []" "lg s' = lg s1 @ map Inr ps"
        "lastResponse v' = Some (last ps)"
        "accumulatedContent v'
           = accumulatedContent ?v1 @ concat (map AdapterResponsePayload.content ps)"
        "accumulatedPromptTokens v' = foldl add_prompt_tokens (accumulatedPromptTokens ?v1) ps"
        "accumulatedCompletionTokens v'
           = foldl add_completion_tokens (accumulatedCompletionTokens ?v1) ps"
        "\<forall>p \<in> set (butlast ps). reports_length p"
        "continuationCount ?v1 + length ps \<le> Suc MAX_CONTINUATIONS"
        "reports_length (last ps)
           \<longrightarrow> continuationCount ?v1 + length ps = Suc MAX_CONTINUATIONS"
        by blast
      with True lg1 Inr show ?thesis
        by (intro exI[of _ "response # ps"])
           (auto simp: accumulate_simps push_partial_simps dest: in_set_butlastD)
    qed
  qed
qed

text \<open>A loop that throws: the calls before the throwing one were all cut off by length.\<close>

lemma loop_throws:
  "\<forall>s rq. lg (snd (a s rq pid key)) = lg s @ [fst (a s rq pid key)] \<Longrightarrow>
   continuationCount v \<le> MAX_CONTINUATIONS \<Longrightarrow>
   continuation_loop a pid key v s = (Inl err, s') \<Longrightarrow>
   \<exists>ps e. err = AdapterThrew e \<and> lg s' = lg s @ map Inr ps @ [Inl e]
      \<and> (\<forall>p \<in> set ps. reports_length p)
      \<and> continuationCount v + length ps \<le> MAX_CONTINUATIONS"
proof (induction a pid key v s arbitrary: err s' rule: continuation_loop.induct)
  case (1 adapter pid key v s)
  obtain r s1 where call: "adapter s (currentRequest v) pid key = (r, s1)"
    by (cases "adapter s (currentRequest v) pid key")
  from "1.prems"(1) call have lg1: "lg s1 = lg s @ [r]"
    by (metis fst_conv snd_conv)
  show ?case
  proof (cases r)
    case (Inl e)
    with "1.prems" call lg1 show ?thesis
      by (intro exI[of _ "[]"] exI[of _ e]) simp
  next
    case (Inr response)
    show ?thesis
    proof (cases "reports_length response \<and> continuationCount v < MAX_CONTINUATIONS")
      case False
      with "1.prems" call Inr show ?thesis
        by (auto simp: reports_length_def accumulate_simps Let_def)
    next
      case True
      let ?v1 = "push_partial (accumulate v response) response"
      from True "1.prems" call Inr
      have rec: "continuation_loop adapter pid key ?v1 s1 = (Inl err, s')"
        by (auto simp: reports_length_def accumulate_simps Let_def)
      have cnt: "continuationCount ?v1 \<le> MAX_CONTINUATIONS"
        using True by (simp add: push_partial_simps accumulate_simps)
      have neg: "\<not> (finishReason (token_usage response) \<noteq> Some ''length'' \<or>
                  MAX_CONTINUATIONS \<le> continuationCount (accumulate v response))"
        using True by (simp add: reports_length_def accumulate_simps)
      from "1.IH"[OF "1.prems"(2) call[symmetric] Inr refl neg "1.prems"(1) cnt rec]
      obtain ps e where ps: "err = AdapterThrew e" "lg s' = lg s1 @ map Inr ps @ [Inl e]"
        "\<forall>p \<in> set ps. reports_length p"
        "continuationCount ?v1 + length ps \<le> MAX_CONTINUATIONS"
        by blast
      with True lg1 Inr show ?thesis
        by (intro exI[of _ "response # ps"] exI[of _ e])
           (auto simp: accumulate_simps push_partial_simps)
    qed
  qed
qed

lemma recording_log:
  "\<forall>s rq. snd (snd (recording adapter s rq pid key))
      = snd s @ [fst (recording adapter s rq pid key)]"
  by (auto simp: recording_def split: prod.splits)

text \<open>Every run of the whole function under the spy: it throws, or it returns.\<close>

lemma handle_cases:
  fixes adapter :: "('s, 'e, 'r, 'p) adapter"
  assumes run: "handleContinuationLoop (recording adapter) request pid key (s, [])
                  = (result, (s', log))"
  shows "(\<exists>ps e. result = Inl (AdapterThrew e) \<and> log = map Inr ps @ [Inl e]
            \<and> (\<forall>p \<in> set ps. reports_length p) \<and> length ps \<le> MAX_CONTINUATIONS)
       \<or> (\<exists>ps (v :: ('r, 'p) loop_vars). result = finalize v \<and> ps \<noteq> [] \<and> log = map Inr ps
            \<and> lastResponse v = Some (last ps)
            \<and> accumulatedContent v = concat (map AdapterResponsePayload.content ps)
            \<and> accumulatedPromptTokens v = foldl add_prompt_tokens (Finite 0) ps
            \<and> accumulatedCompletionTokens v = foldl add_completion_tokens (Finite 0) ps
            \<and> (\<forall>p \<in> set (butlast ps). reports_length p)
            \<and> length ps \<le> Suc MAX_CONTINUATIONS
            \<and> (reports_length (last ps) \<longrightarrow> length ps = Suc MAX_CONTINUATIONS))"
proof -
  let ?v0 = "initial_vars request :: ('r, 'p) loop_vars"
  obtain lr st where loop:
    "continuation_loop (recording adapter) pid key ?v0 (s, []) = (lr, st)"
    by (cases "continuation_loop (recording adapter) pid key ?v0 (s, [])")
  have c0: "continuationCount ?v0 \<le> MAX_CONTINUATIONS"
    by (simp add: initial_vars_simps)
  show ?thesis
  proof (cases lr)
    case (Inl err)
    with run loop have res: "result = Inl err" "st = (s', log)"
      by (simp_all add: handleContinuationLoop_def)
    from loop_throws[where lg = snd, OF recording_log c0 loop[unfolded Inl]] res
    obtain ps e where "err = AdapterThrew e" "log = map Inr ps @ [Inl e]"
      "\<forall>p \<in> set ps. reports_length p" "length ps \<le> MAX_CONTINUATIONS"
      by (auto simp: initial_vars_simps)
    with res show ?thesis
      by (intro disjI1, intro exI[of _ ps], intro exI[of _ e]) simp
  next
    case (Inr v)
    with run loop have res: "result = finalize v" "st = (s', log)"
      by (simp_all add: handleContinuationLoop_def)
    from loop_returns[where lg = snd, OF recording_log c0 loop[unfolded Inr]] res
    obtain ps where "ps \<noteq> []" "log = map Inr ps"
      "lastResponse v = Some (last ps)"
      "accumulatedContent v = concat (map AdapterResponsePayload.content ps)"
      "accumulatedPromptTokens v = foldl add_prompt_tokens (Finite 0) ps"
      "accumulatedCompletionTokens v = foldl add_completion_tokens (Finite 0) ps"
      "\<forall>p \<in> set (butlast ps). reports_length p"
      "length ps \<le> Suc MAX_CONTINUATIONS"
      "reports_length (last ps) \<longrightarrow> length ps = Suc MAX_CONTINUATIONS"
      by (auto simp: initial_vars_simps)
    with res show ?thesis
      by (intro disjI2, intro exI[of _ ps], intro exI[of _ v]) simp
  qed
qed

text \<open>The two sample runs: five calls all cut off by length; a cut-off call, then a complete one.\<close>

lemma run_all_length:
  "handleContinuationLoop (recording (constant_adapter length_response)) request0 ''m'' ''k'' ((), [])
   = (Inr (length_response\<lparr>AdapterResponsePayload.content := ''ababababab'',
        token_usage := Some \<lparr>prompt_tokens = Some (Finite 50), completion_tokens = Some (Finite 25),
                             total_tokens = Some (Finite 75), finish_reason = Some ''stop''\<rparr>\<rparr>),
      ((), replicate 5 (Inr length_response)))"
  by code_simp

lemma run_length_then_stop:
  "handleContinuationLoop (recording scripted_adapter) request0 ''m'' ''k''
     ([Inr length_response, Inr stop_response, Inr stop_response :: unit + AdapterResponsePayload], [])
   = (Inr (stop_response\<lparr>AdapterResponsePayload.content := ''abcd'',
        token_usage := Some \<lparr>prompt_tokens = Some (Finite 22), completion_tokens = Some (Finite 12),
                             total_tokens = Some (Finite 34), finish_reason = Some ''stop''\<rparr>\<rparr>),
      ([Inr stop_response], [Inr length_response, Inr stop_response]))"
  by code_simp

lemma finalize_returns:
  "finalize v = Inr payload \<Longrightarrow>
   \<exists>last_response. lastResponse v = Some last_response
     \<and> payload = last_response\<lparr>
          AdapterResponsePayload.content := accumulatedContent v,
          token_usage := Some \<lparr>
            prompt_tokens = Some (accumulatedPromptTokens v),
            completion_tokens = Some (accumulatedCompletionTokens v),
            total_tokens =
              Some (js_add (accumulatedPromptTokens v) (accumulatedCompletionTokens v)),
            finish_reason = Some ''stop''\<rparr>\<rparr>"
  by (auto simp: finalize_def split: option.splits)







text \<open>Below \<open>2 ^ 53\<close> in size a sum of integers is exact, and so is a running total.\<close>

lemma round_to_double_exact: "\<bar>z\<bar> < 2 ^ 53 \<Longrightarrow> round_to_double z = Finite z"
  by (simp add: round_to_double_def)

lemma fold_prompt_exact:
  "map call_prompt_tokens ps = map Finite ns \<Longrightarrow> \<forall>n \<in> set ns. 0 \<le> n \<Longrightarrow> 0 \<le> a \<Longrightarrow>
   a + sum_list ns < 2 ^ 53 \<Longrightarrow>
   foldl add_prompt_tokens (Finite a) ps = Finite (a + sum_list ns)"
proof (induction ps arbitrary: ns a)
  case Nil
  then show ?case by simp
next
  case (Cons p ps)
  then obtain n ns' where ns: "ns = n # ns'" "call_prompt_tokens p = Finite n"
    "map call_prompt_tokens ps = map Finite ns'"
    by (cases ns) auto
  have pos: "0 \<le> n" "0 \<le> sum_list ns'" "\<forall>n \<in> set ns'. 0 \<le> n"
    using Cons.prems(2) ns(1) by (auto intro: sum_list_nonneg)
  with Cons.prems(3,4) ns(1) have small: "\<bar>a + n\<bar> < 2 ^ 53"
    by simp
  have step: "add_prompt_tokens (Finite a) p = Finite (a + n)"
    using ns(2) round_to_double_exact[OF small]
    by (auto simp: add_prompt_tokens_def call_prompt_tokens_def split: option.splits)
  have "foldl add_prompt_tokens (Finite (a + n)) ps = Finite (a + n + sum_list ns')"
    using Cons.prems(3,4) ns(1) pos by (intro Cons.IH[OF ns(3)]) auto
  with step ns(1) show ?case by (simp add: add.assoc)
qed

lemma fold_completion_exact:
  "map call_completion_tokens ps = map Finite ns \<Longrightarrow> \<forall>n \<in> set ns. 0 \<le> n \<Longrightarrow> 0 \<le> a \<Longrightarrow>
   a + sum_list ns < 2 ^ 53 \<Longrightarrow>
   foldl add_completion_tokens (Finite a) ps = Finite (a + sum_list ns)"
proof (induction ps arbitrary: ns a)
  case Nil
  then show ?case by simp
next
  case (Cons p ps)
  then obtain n ns' where ns: "ns = n # ns'" "call_completion_tokens p = Finite n"
    "map call_completion_tokens ps = map Finite ns'"
    by (cases ns) auto
  have pos: "0 \<le> n" "0 \<le> sum_list ns'" "\<forall>n \<in> set ns'. 0 \<le> n"
    using Cons.prems(2) ns(1) by (auto intro: sum_list_nonneg)
  with Cons.prems(3,4) ns(1) have small: "\<bar>a + n\<bar> < 2 ^ 53"
    by simp
  have step: "add_completion_tokens (Finite a) p = Finite (a + n)"
    using ns(2) round_to_double_exact[OF small]
    by (auto simp: add_completion_tokens_def call_completion_tokens_def split: option.splits)
  have "foldl add_completion_tokens (Finite (a + n)) ps = Finite (a + n + sum_list ns')"
    using Cons.prems(3,4) ns(1) pos by (intro Cons.IH[OF ns(3)]) auto
  with step ns(1) show ?case by (simp add: add.assoc)
qed

text \<open>
  Claim C3, as amended. The returned content is the concatenation, in call order, of the
  contents of the responses received. \<^verbatim>\<open>prompt_tokens\<close> and \<^verbatim>\<open>completion_tokens\<close> are the
  running totals of the calls' counts, each kept on its own and added with JavaScript's
  \<^verbatim>\<open>+\<close> in call order (a call without \<^verbatim>\<open>token_usage\<close> adds nothing, a missing count
  adds \<open>0\<close>); \<^verbatim>\<open>total_tokens\<close> is their JavaScript sum. Whenever every count is a
  non-negative integer and all of them together stay below \<open>2 ^ 53\<close>, these are the exact
  sums, and \<^verbatim>\<open>total_tokens\<close> is exactly \<^verbatim>\<open>prompt_tokens + completion_tokens\<close>. The witness
  is the run with counts \<open>(10, 5)\<close> then \<open>(12, 7)\<close>, which gives \<open>22\<close>, \<open>12\<close> and \<open>34\<close>.
\<close>

theorem accumulated_content_and_tokens:
  fixes adapter :: "('s, 'e, 'r, 'p) adapter"
  assumes "handleContinuationLoop (recording adapter) request pid key (s, [])
             = (Inr payload, (s', log))"
  shows "\<exists>ps u. log = map Inr ps \<and> token_usage payload = Some u
       \<and> AdapterResponsePayload.content payload
           = concat (map AdapterResponsePayload.content ps)
       \<and> prompt_tokens u = Some (foldl add_prompt_tokens (Finite 0) ps)
       \<and> completion_tokens u = Some (foldl add_completion_tokens (Finite 0) ps)
       \<and> total_tokens u = Some (js_add (foldl add_prompt_tokens (Finite 0) ps)
                                        (foldl add_completion_tokens (Finite 0) ps))
       \<and> (\<forall>ns ms. map call_prompt_tokens ps = map Finite ns
                  \<and> map call_completion_tokens ps = map Finite ms
                  \<and> (\<forall>n \<in> set ns. 0 \<le> n) \<and> (\<forall>m \<in> set ms. 0 \<le> m)
                  \<and> sum_list ns + sum_list ms < 2 ^ 53
            \<longrightarrow> prompt_tokens u = Some (Finite (sum_list ns))
                \<and> completion_tokens u = Some (Finite (sum_list ms))
                \<and> total_tokens u = Some (Finite (sum_list ns + sum_list ms)))"
proof -
  from handle_cases[OF assms] show ?thesis
  proof (elim disjE exE conjE)
    fix e :: 'e
    assume "Inr payload = Inl (AdapterThrew e)"
    then show ?thesis by simp
  next
    fix ps and v :: "('r, 'p) loop_vars"
    assume v: "Inr payload = finalize v" "log = map Inr ps"
       "accumulatedContent v = concat (map AdapterResponsePayload.content ps)"
       "accumulatedPromptTokens v = foldl add_prompt_tokens (Finite 0) ps"
       "accumulatedCompletionTokens v = foldl add_completion_tokens (Finite 0) ps"
    let ?P = "foldl add_prompt_tokens (Finite 0) ps"
    let ?C = "foldl add_completion_tokens (Finite 0) ps"
    from finalize_returns[OF v(1)[symmetric]] v(3-)
    obtain u where u: "token_usage payload = Some u"
      "AdapterResponsePayload.content payload = concat (map AdapterResponsePayload.content ps)"
      "prompt_tokens u = Some ?P" "completion_tokens u = Some ?C"
      "total_tokens u = Some (js_add ?P ?C)"
      by auto
    have exact: "?P = Finite (sum_list ns) \<and> ?C = Finite (sum_list ms)
                 \<and> js_add ?P ?C = Finite (sum_list ns + sum_list ms)"
      if h: "map call_prompt_tokens ps = map Finite ns"
            "map call_completion_tokens ps = map Finite ms"
            "\<forall>n \<in> set ns. 0 \<le> n" "\<forall>m \<in> set ms. 0 \<le> m"
            "sum_list ns + sum_list ms < 2 ^ 53" for ns ms
    proof -
      have nn: "0 \<le> sum_list ns" "0 \<le> sum_list ms"
        using h(3,4) by (auto intro: sum_list_nonneg)
      have P: "?P = Finite (sum_list ns)"
        using fold_prompt_exact[OF h(1) h(3), of 0] h(5) nn by simp
      have C: "?C = Finite (sum_list ms)"
        using fold_completion_exact[OF h(2) h(4), of 0] h(5) nn by simp
      have "\<bar>sum_list ns + sum_list ms\<bar> < 2 ^ 53"
        using h(5) nn by simp
      from round_to_double_exact[OF this] P C show ?thesis by simp
    qed
    show ?thesis
      using v(2) u exact by (intro exI[of _ ps], intro exI[of _ u]) auto
  qed
qed

theorem accumulated_content_and_tokens_witness:
  "handleContinuationLoop (recording scripted_adapter) request0 ''m'' ''k''
     ([Inr length_response, Inr stop_response, Inr stop_response
         :: unit + AdapterResponsePayload], [])
     = (Inr (stop_response\<lparr>AdapterResponsePayload.content := ''abcd'',
          token_usage := Some \<lparr>prompt_tokens = Some (Finite 22),
                               completion_tokens = Some (Finite 12),
                               total_tokens = Some (Finite 34),
                               finish_reason = Some ''stop''\<rparr>\<rparr>),
        ([Inr stop_response], [Inr length_response, Inr stop_response]))
   \<and> map call_prompt_tokens [length_response, stop_response] = map Finite [10, 12]
   \<and> map call_completion_tokens [length_response, stop_response] = map Finite [5, 7]
   \<and> list_all (\<lambda>n. 0 \<le> n) [10, 12 :: int] \<and> list_all (\<lambda>m. 0 \<le> m) [5, 7 :: int]
   \<and> sum_list [10, 12 :: int] + sum_list [5, 7] < 2 ^ 53
   \<and> sum_list [10, 12 :: int] = 22 \<and> sum_list [5, 7 :: int] = 12
   \<and> ''abcd'' = concat (map AdapterResponsePayload.content [length_response, stop_response])"
proof -
  have counts: "map call_prompt_tokens [length_response, stop_response] = map Finite [10, 12]"
    "map call_completion_tokens [length_response, stop_response] = map Finite [5, 7]"
    by (simp_all add: call_prompt_tokens_def call_completion_tokens_def
          length_response_def stop_response_def)
  have small: "\<forall>n \<in> set [10, 12 :: int]. 0 \<le> n" "\<forall>m \<in> set [5, 7 :: int]. 0 \<le> m"
    "sum_list [10, 12 :: int] + sum_list [5, 7] < 2 ^ 53"
    by simp_all
  have cat: "''abcd''
      = concat (map AdapterResponsePayload.content [length_response, stop_response])"
    by (simp add: length_response_def stop_response_def)
  from accumulated_content_and_tokens[OF run_length_then_stop]
  obtain ps :: "AdapterResponsePayload list" and u :: TokenUsage where pu:
    "[Inr length_response, Inr stop_response :: unit option + AdapterResponsePayload]
       = map Inr ps"
    "\<forall>ns ms. map call_prompt_tokens ps = map Finite ns
             \<and> map call_completion_tokens ps = map Finite ms
             \<and> (\<forall>n \<in> set ns. 0 \<le> n) \<and> (\<forall>m \<in> set ms. 0 \<le> m)
             \<and> sum_list ns + sum_list ms < 2 ^ 53
        \<longrightarrow> prompt_tokens u = Some (Finite (sum_list ns))
            \<and> completion_tokens u = Some (Finite (sum_list ms))
            \<and> total_tokens u = Some (Finite (sum_list ns + sum_list ms))"
    by (elim exE conjE) (rule that, assumption+)
  from pu(1) have "ps = [length_response, stop_response]"
    by (auto simp: map_eq_Cons_conv)
  with pu(2) counts small
  have "prompt_tokens u = Some (Finite (sum_list [10, 12]))" by blast
  with run_length_then_stop counts small cat show ?thesis
    by (simp add: list_all_iff)
qed

text \<open>
  Claim C3 as stated fails above \<open>2 ^ 53\<close>. For prompt counts \<open>2 ^ 53\<close> and \<open>1\<close> the sum is
  \<open>9007199254740993\<close>; the returned \<^verbatim>\<open>prompt_tokens\<close> is \<open>9007199254740992\<close>, the nearest
  number JavaScript has. The completion counts \<open>5\<close> and \<open>7\<close> give \<open>12\<close>, and the returned
  \<^verbatim>\<open>total_tokens\<close> is \<open>9007199254741004\<close>.
\<close>

theorem large_counts_are_rounded:
  "handleContinuationLoop (recording scripted_adapter) request0 ''m'' ''k''
     ([Inr huge_count_response, Inr one_more_response :: unit + AdapterResponsePayload], [])
     = (Inr (one_more_response\<lparr>AdapterResponsePayload.content := ''abcd'',
          token_usage := Some \<lparr>prompt_tokens = Some (Finite 9007199254740992),
                               completion_tokens = Some (Finite 12),
                               total_tokens = Some (Finite 9007199254741004),
                               finish_reason = Some ''stop''\<rparr>\<rparr>),
        ([], [Inr huge_count_response, Inr one_more_response]))
   \<and> call_prompt_tokens huge_count_response = Finite 9007199254740992
   \<and> call_prompt_tokens one_more_response = Finite 1
   \<and> (9007199254740992 :: int) + 1 = 9007199254740993"
  by code_simp

text \<open>
  Claim C7. \<^verbatim>\<open>handleContinuationLoop\<close> always calls the provider at least once; it never
  ends in its own "no response" error: the loop never exits with \<^verbatim>\<open>lastResponse\<close> null,
  and a throwing adapter surfaces as the adapter's error. Were the check reached with
  \<^verbatim>\<open>lastResponse\<close> null, it would raise that error and return no payload.
\<close>

theorem loop_calls_at_least_once:
  fixes adapter :: "('s, 'e, 'r, 'p) adapter"
  assumes "handleContinuationLoop (recording adapter) request pid key (s, [])
             = (result, (s', log))"
  shows "1 \<le> length log
       \<and> result \<noteq> Inl NoResponseInLoop
       \<and> (\<forall>v st. continuation_loop (recording adapter) pid key (initial_vars request) (s, [])
                    = (Inr v, st) \<longrightarrow> lastResponse v \<noteq> None)
       \<and> (\<forall>v :: ('r, 'p) loop_vars. lastResponse v = None
            \<longrightarrow> (finalize v :: 'e loop_error + 'p AdapterResponsePayload_scheme)
                  = Inl NoResponseInLoop)"
proof (intro conjI allI impI)
  from handle_cases[OF assms] show "1 \<le> length log"
    by (auto simp: Suc_le_eq)
  from handle_cases[OF assms] show "result \<noteq> Inl NoResponseInLoop"
    by (auto simp: finalize_def)
next
  fix v :: "('r, 'p) loop_vars" and st
  assume "continuation_loop (recording adapter) pid key (initial_vars request) (s, [])
            = (Inr v, st)"
  from loop_returns[where lg = snd, OF recording_log _ this] show "lastResponse v \<noteq> None"
    by (auto simp: initial_vars_simps)
next
  fix v :: "('r, 'p) loop_vars"
  assume "lastResponse v = None"
  then show "(finalize v :: 'e loop_error + 'p AdapterResponsePayload_scheme)
               = Inl NoResponseInLoop"
    by (simp add: finalize_def)
qed

lemma run_throws_at_once:
  "handleContinuationLoop (recording scripted_adapter) request0 ''m'' ''k''
     ([] :: (unit + AdapterResponsePayload) list, [])
   = (Inl (AdapterThrew None), ([], [Inl None]))"
  by code_simp

lemma loop_length_then_stop:
  "continuation_loop (recording scripted_adapter) ''m'' ''k'' (initial_vars request0)
     ([Inr length_response, Inr stop_response, Inr stop_response
         :: unit + AdapterResponsePayload], [])
   = (Inr \<lparr>accumulatedContent = ''abcd'', accumulatedPromptTokens = Finite 22,
           accumulatedCompletionTokens = Finite 12,
           currentRequest = request0\<lparr>ChatApiRequest.messages :=
             Some [\<lparr>Message.role = ''assistant'', content = ''ab''\<rparr>]\<rparr>,
           continuationCount = 1, lastResponse = Some stop_response\<rparr>,
      ([Inr stop_response], [Inr length_response, Inr stop_response]))"
  by code_simp

theorem loop_calls_at_least_once_witness:
  "handleContinuationLoop (recording scripted_adapter) request0 ''m'' ''k''
     ([] :: (unit + AdapterResponsePayload) list, [])
     = (Inl (AdapterThrew None), ([], [Inl None]))
   \<and> 1 \<le> length [Inl None :: unit option + AdapterResponsePayload]
   \<and> continuation_loop (recording scripted_adapter) ''m'' ''k'' (initial_vars request0)
        ([Inr length_response, Inr stop_response, Inr stop_response
            :: unit + AdapterResponsePayload], [])
       = (Inr \<lparr>accumulatedContent = ''abcd'', accumulatedPromptTokens = Finite 22,
               accumulatedCompletionTokens = Finite 12,
               currentRequest = request0\<lparr>ChatApiRequest.messages :=
                 Some [\<lparr>Message.role = ''assistant'', content = ''ab''\<rparr>]\<rparr>,
               continuationCount = 1, lastResponse = Some stop_response\<rparr>,
          ([Inr stop_response], [Inr length_response, Inr stop_response]))
   \<and> 1 \<le> length [Inr length_response, Inr stop_response
                     :: unit option + AdapterResponsePayload]
   \<and> lastResponse (initial_vars request0 :: (unit, unit) loop_vars) = None
   \<and> (finalize (initial_vars request0 :: (unit, unit) loop_vars)
        :: unit option loop_error + AdapterResponsePayload) = Inl NoResponseInLoop"
proof -
  have h: "lastResponse (initial_vars request0 :: (unit, unit) loop_vars) = None"
    by (simp add: initial_vars_def)
  from loop_calls_at_least_once[OF run_throws_at_once]
       loop_calls_at_least_once[OF run_length_then_stop]
       h run_throws_at_once loop_length_then_stop
  show ?thesis by blast
qed

text \<open>
  Claim C9. A returned payload is the last provider response with \<^verbatim>\<open>content\<close> and
  \<^verbatim>\<open>token_usage\<close> replaced. Every other property, the top-level \<^verbatim>\<open>finish_reason\<close>,
  \<^verbatim>\<open>role\<close>, \<^verbatim>\<open>ai_provider_id\<close>, \<^verbatim>\<open>system_prompt_id\<close> and any further one, is the last
  response's; only the \<^verbatim>\<open>finish_reason\<close> inside the new \<^verbatim>\<open>token_usage\<close> is \<^verbatim>\<open>"stop"\<close>.
  In the witness the top-level \<^verbatim>\<open>finish_reason\<close> of the result is still \<^verbatim>\<open>"length"\<close>.
\<close>

theorem returned_payload_frame:
  fixes adapter :: "('s, 'e, 'r, 'p) adapter"
  assumes "handleContinuationLoop (recording adapter) request pid key (s, [])
             = (Inr payload, (s', log))"
  shows "\<exists>ps u. ps \<noteq> [] \<and> log = map Inr ps
       \<and> payload = (last ps)\<lparr>AdapterResponsePayload.content :=
                                 AdapterResponsePayload.content payload,
                               token_usage := Some u\<rparr>
       \<and> TokenUsage.finish_reason u = Some ''stop''
       \<and> AdapterResponsePayload.finish_reason payload
           = AdapterResponsePayload.finish_reason (last ps)
       \<and> AdapterResponsePayload.role payload = AdapterResponsePayload.role (last ps)
       \<and> ai_provider_id payload = ai_provider_id (last ps)
       \<and> system_prompt_id payload = system_prompt_id (last ps)
       \<and> AdapterResponsePayload.more payload = AdapterResponsePayload.more (last ps)"
proof -
  from handle_cases[OF assms] show ?thesis
  proof (elim disjE exE conjE)
    fix e :: 'e
    assume "Inr payload = Inl (AdapterThrew e)"
    then show ?thesis by simp
  next
    fix ps and v :: "('r, 'p) loop_vars"
    assume v: "Inr payload = finalize v" "ps \<noteq> []" "log = map Inr ps"
      "lastResponse v = Some (last ps)"
    from finalize_returns[OF v(1)[symmetric]] v(2-) show ?thesis
      by (intro exI[of _ ps]) auto
  qed
qed

theorem returned_payload_frame_witness:
  "handleContinuationLoop (recording (constant_adapter length_response)) request0 ''m'' ''k'' ((), [])
     = (Inr (length_response\<lparr>AdapterResponsePayload.content := ''ababababab'',
          token_usage := Some \<lparr>prompt_tokens = Some (Finite 50), completion_tokens = Some (Finite 25),
                               total_tokens = Some (Finite 75), finish_reason = Some ''stop''\<rparr>\<rparr>),
        ((), replicate 5 (Inr length_response)))
   \<and> AdapterResponsePayload.finish_reason
        (length_response\<lparr>AdapterResponsePayload.content := ''ababababab'',
          token_usage := Some \<lparr>prompt_tokens = Some (Finite 50), completion_tokens = Some (Finite 25),
                               total_tokens = Some (Finite 75), finish_reason = Some ''stop''\<rparr>\<rparr>)
       = Some ''length''
   \<and> (\<exists>ps u. ps \<noteq> []
        \<and> replicate 5 (Inr length_response :: unit + AdapterResponsePayload) = map Inr ps
        \<and> TokenUsage.finish_reason u = Some ''stop''
        \<and> length_response\<lparr>AdapterResponsePayload.content := ''ababababab'',
             token_usage := Some \<lparr>prompt_tokens = Some (Finite 50), completion_tokens = Some (Finite 25),
                               total_tokens = Some (Finite 75), finish_reason = Some ''stop''\<rparr>\<rparr>
            = (last ps)\<lparr>AdapterResponsePayload.content := ''ababababab'',
                         token_usage := Some u\<rparr>)"
proof -
  have top: "AdapterResponsePayload.finish_reason length_response = Some ''length''"
    by (simp add: length_response_def)
  from returned_payload_frame[OF run_all_length] top run_all_length show ?thesis
    by auto
qed

section \<open>Properties of the Anthropic adapter\<close>

lemma first_pass_messages:
  "snd (first_pass ms sp acc)
     = acc @ filter (\<lambda>m. Message.role m = ''user'' \<or> Message.role m = ''assistant'') ms"
  by (induction ms arbitrary: sp acc) auto


lemma second_pass_alternates:
  "\<forall>i < length acc. Message.role (acc ! i) = (if even i then ''user'' else ''assistant'') \<Longrightarrow>
   e = (if even (length acc) then ''user'' else ''assistant'') \<Longrightarrow>
   i < length (second_pass ms e acc) \<Longrightarrow>
   Message.role (second_pass ms e acc ! i) = (if even i then ''user'' else ''assistant'')"
proof (induction ms arbitrary: e acc)
  case Nil
  then show ?case by simp
next
  case (Cons m ms)
  show ?case
  proof (cases "Message.role m = e")
    case True
    have acc': "\<forall>i < length (acc @ [m]).
                  Message.role ((acc @ [m]) ! i) = (if even i then ''user'' else ''assistant'')"
      using Cons.prems(1,2) True by (auto simp: nth_append less_Suc_eq)
    have e': "(if e = ''user'' then ''assistant'' else ''user'')
                = (if even (length (acc @ [m])) then ''user'' else ''assistant'')"
      using Cons.prems(2) by simp
    from Cons.prems(3) True
    have "i < length (second_pass ms (if e = ''user'' then ''assistant'' else ''user'') (acc @ [m]))"
      by simp
    from Cons.IH[OF acc' e' this] True show ?thesis by simp
  next
    case False
    with Cons.prems(3) have "i < length (second_pass ms e acc)" by simp
    from Cons.IH[OF Cons.prems(1,2) this] False show ?thesis by simp
  qed
qed


text \<open>What the part before \<^verbatim>\<open>fetch\<close> returns, with \<open>last\<close> for the index.\<close>

lemma anthropicPayload_cases:
  "anthropicPayload request mid =
     (if anthropicMessages request = [] then Inl NoValidMessages
      else if Message.role (last (anthropicMessages request)) \<noteq> ''user''
      then Inl HistoryFormatInvalid
      else Inr \<lparr>model = modelApiName mid,
                system = (if systemPrompt request \<noteq> [] then Some (systemPrompt request)
                          else None),
                messages = anthropicMessages request,
                max_tokens = maxTokensForPayload (max_tokens_to_generate request)\<rparr>)"
  by (simp add: anthropicPayload_def last_conv_nth)

lemma anthropicMessages_alternate:
  "i < length (anthropicMessages request) \<Longrightarrow>
   Message.role (anthropicMessages request ! i) = (if even i then ''user'' else ''assistant'')"
  unfolding anthropicMessages_def by (rule second_pass_alternates) simp_all


lemma sendMessage_recorded:
  "sendMessage apiKey stringifies (recording_fetch reply) sent0 request mid =
     (case anthropicPayload request mid of
        Inl e \<Rightarrow> (Inl e, sent0)
      | Inr payload \<Rightarrow>
          if \<not> stringifies payload then (Inl StringifyRangeError, sent0)
          else
            (let hr = \<lparr>url = ANTHROPIC_API_BASE @ ''/messages'', x_api_key = apiKey,
                        anthropic_version = ANTHROPIC_VERSION, body = payload\<rparr>
             in (case reply hr of
                   Inl x \<Rightarrow> Inl (FetchRejected x)
                 | Inr response \<Rightarrow> adapterResponse request response,
                 sent0 @ [hr])))"
  by (auto simp: sendMessage_def recording_fetch_def Let_def split: sum.splits)

text \<open>
  The second loop run over two lists in a row is the loop run over the second from where
  the first left it; so the new message, last in line, is kept exactly when a user
  message is expected after the history.
\<close>

lemma second_pass_append:
  "e = (if even (length acc) then ''user'' else ''assistant'') \<Longrightarrow>
   second_pass (xs @ ys) e acc
     = second_pass ys (if even (length (second_pass xs e acc)) then ''user'' else ''assistant'')
         (second_pass xs e acc)"
proof (induction xs arbitrary: e acc)
  case Nil
  then show ?case by simp
next
  case (Cons m xs)
  show ?case
  proof (cases "Message.role m = e")
    case True
    have "(if e = ''user'' then ''assistant'' else ''user'')
            = (if even (length (acc @ [m])) then ''user'' else ''assistant'')"
      using Cons.prems by simp
    from Cons.IH[OF this] True show ?thesis by simp
  next
    case False
    from Cons.IH[OF Cons.prems] False show ?thesis by simp
  qed
qed

lemma anthropicMessages_even:
  "even (length (anthropicMessages request))
     \<longleftrightarrow> anthropicMessages request = []
         \<or> Message.role (last (anthropicMessages request)) = ''assistant''"
proof (cases "anthropicMessages request = []")
  case True
  then show ?thesis by simp
next
  case False
  then have "Message.role (last (anthropicMessages request))
               = (if even (length (anthropicMessages request) - 1) then ''user''
                  else ''assistant'')"
    using anthropicMessages_alternate[of "length (anthropicMessages request) - 1" request]
    by (simp add: last_conv_nth)
  with False show ?thesis by (cases "anthropicMessages request") auto
qed

lemma anthropicMessages_new_message:
  assumes "message request = Some m" "m \<noteq> []"
  shows "anthropicMessages request
           = (if anthropicMessages (request\<lparr>message := None\<rparr>) = []
                 \<or> Message.role (last (anthropicMessages (request\<lparr>message := None\<rparr>)))
                     = ''assistant''
              then anthropicMessages (request\<lparr>message := None\<rparr>)
                   @ [\<lparr>Message.role = ''user'', content = m\<rparr>]
              else anthropicMessages (request\<lparr>message := None\<rparr>))"
proof -
  let ?history = "case ChatApiRequest.messages request of None \<Rightarrow> [] | Some ms \<Rightarrow> ms"
  let ?kept = "filter (\<lambda>m. Message.role m = ''user'' \<or> Message.role m = ''assistant'') ?history"
  let ?new = "\<lparr>Message.role = ''user'', content = m\<rparr>"
  have before: "anthropicMessages (request\<lparr>message := None\<rparr>) = second_pass ?kept ''user'' []"
    by (simp add: anthropicMessages_def combinedMessages_def first_pass_messages)
  have "anthropicMessages request = second_pass (?kept @ [?new]) ''user'' []"
    using assms by (simp add: anthropicMessages_def combinedMessages_def first_pass_messages)
  also have "\<dots> = second_pass [?new]
                      (if even (length (second_pass ?kept ''user'' [])) then ''user''
                       else ''assistant'')
                      (second_pass ?kept ''user'' [])"
    by (rule second_pass_append) simp
  also have "\<dots> = (if even (length (second_pass ?kept ''user'' []))
                    then second_pass ?kept ''user'' [] @ [?new]
                    else second_pass ?kept ''user'' [])"
    by simp
  finally show ?thesis
    unfolding before[symmetric] anthropicMessages_even .
qed



lemma history_send:
  "sendMessage ''key'' sample_stringifies (recording_fetch ok_reply) [] history_request ''anthropic-claude-3''
   = (Inr \<lparr>AdapterResponsePayload.role = ''assistant'', content = ''hi'',
           ai_provider_id = ''p1'', system_prompt_id = Some ''prompt-7'',
           token_usage = Some \<lparr>prompt_tokens = Some (Finite 3), completion_tokens = Some (Finite 1),
                               total_tokens = Some (Finite 4), finish_reason = None\<rparr>,
           finish_reason = Some ''length''\<rparr>,
      [history_sent])"
  by code_simp

lemma empty_send:
  "sendMessage ''key'' sample_stringifies (recording_fetch ok_reply) [] empty_request ''anthropic-claude-3''
   = (Inl NoValidMessages, [])"
  by code_simp

lemma assistant_last_send:
  "sendMessage ''key'' sample_stringifies (recording_fetch ok_reply) [] assistant_last_request ''anthropic-claude-3''
   = (Inl HistoryFormatInvalid, [])"
  by code_simp


text \<open>What a run under the spy fetch sends, by the three checks before \<^verbatim>\<open>fetch\<close>.\<close>

lemma sent_body:
  fixes reply :: "HttpRequest \<Rightarrow> 'x + HttpResponse"
  assumes "sendMessage apiKey stringifies (recording_fetch reply) [] request modelIdentifier
             = (result, sent)"
  shows "anthropicMessages request = [] \<and> sent = [] \<and> result = Inl NoValidMessages
       \<or> anthropicMessages request \<noteq> []
         \<and> Message.role (last (anthropicMessages request)) \<noteq> ''user''
         \<and> sent = [] \<and> result = Inl HistoryFormatInvalid
       \<or> anthropicMessages request \<noteq> []
         \<and> Message.role (last (anthropicMessages request)) = ''user''
         \<and> (if stringifies
                  \<lparr>model = modelApiName modelIdentifier,
                   system = (if systemPrompt request \<noteq> [] then Some (systemPrompt request)
                             else None),
                   messages = anthropicMessages request,
                   max_tokens = maxTokensForPayload (max_tokens_to_generate request)\<rparr>
             then sent = [\<lparr>url = ANTHROPIC_API_BASE @ ''/messages'', x_api_key = apiKey,
                           anthropic_version = ANTHROPIC_VERSION,
                           body = \<lparr>model = modelApiName modelIdentifier,
                                    system = (if systemPrompt request \<noteq> []
                                              then Some (systemPrompt request) else None),
                                    messages = anthropicMessages request,
                                    max_tokens =
                                      maxTokensForPayload (max_tokens_to_generate request)\<rparr>\<rparr>]
             else sent = [] \<and> result = Inl StringifyRangeError)"
  using assms
  by (auto simp: sendMessage_recorded anthropicPayload_cases Let_def split: if_splits)

text \<open>
  Claim C6, as amended. Whatever \<^verbatim>\<open>sendMessage\<close> sends carries only user and assistant
  messages in strict alternation, the first and the last from the user. The new message,
  when truthy, is appended to the history as a user message before filtering; it is the
  last message sent when the filtered history is empty or ends with an assistant message,
  and it is skipped, so that only the filtered history is sent, when the filtered history
  ends with a user message. When no message survives the filtering, or the last survivor
  is not from the user, \<^verbatim>\<open>sendMessage\<close> throws and nothing is sent.
\<close>

theorem sent_messages_alternate:
  fixes reply :: "HttpRequest \<Rightarrow> 'x + HttpResponse"
  assumes "sendMessage apiKey stringifies (recording_fetch reply) [] request modelIdentifier
             = (result, sent)"
  shows "(anthropicMessages request = [] \<longrightarrow> result = Inl NoValidMessages \<and> sent = [])
       \<and> (anthropicMessages request \<noteq> []
            \<and> Message.role (last (anthropicMessages request)) \<noteq> ''user''
            \<longrightarrow> result = Inl HistoryFormatInvalid \<and> sent = [])
       \<and> (\<forall>hr \<in> set sent.
             sent = [hr] \<and> messages (body hr) = anthropicMessages request
             \<and> messages (body hr) \<noteq> []
             \<and> (\<forall>i < length (messages (body hr)).
                   Message.role (messages (body hr) ! i)
                     = (if even i then ''user'' else ''assistant''))
             \<and> Message.role (hd (messages (body hr))) = ''user''
             \<and> Message.role (last (messages (body hr))) = ''user'')
       \<and> (\<forall>m. message request = Some m \<and> m \<noteq> []
            \<longrightarrow> combinedMessages request
                  = (case ChatApiRequest.messages request of None \<Rightarrow> [] | Some ms \<Rightarrow> ms)
                    @ [\<lparr>Message.role = ''user'', content = m\<rparr>])
       \<and> (\<forall>m hr. message request = Some m \<and> m \<noteq> [] \<and> hr \<in> set sent
            \<longrightarrow> messages (body hr)
                  = (if anthropicMessages (request\<lparr>message := None\<rparr>) = []
                        \<or> Message.role (last (anthropicMessages (request\<lparr>message := None\<rparr>)))
                            = ''assistant''
                     then anthropicMessages (request\<lparr>message := None\<rparr>)
                          @ [\<lparr>Message.role = ''user'', content = m\<rparr>]
                     else anthropicMessages (request\<lparr>message := None\<rparr>)))"
proof -
  let ?ams = "anthropicMessages request"
  note body = sent_body[OF assms]
  have hd_user: "Message.role (hd ?ams) = ''user''" if "?ams \<noteq> []"
    using anthropicMessages_alternate[of 0 request] that by (simp add: hd_conv_nth)
  have sent_ams: "sent = [hr] \<and> messages (body hr) = ?ams \<and> ?ams \<noteq> []
                  \<and> Message.role (last ?ams) = ''user''" if "hr \<in> set sent" for hr
    using body that by (auto split: if_splits)
  show ?thesis
  proof (intro conjI)
    show "?ams = [] \<longrightarrow> result = Inl NoValidMessages \<and> sent = []"
      using body by auto
    show "?ams \<noteq> [] \<and> Message.role (last ?ams) \<noteq> ''user''
            \<longrightarrow> result = Inl HistoryFormatInvalid \<and> sent = []"
      using body by auto
    show "\<forall>hr \<in> set sent.
             sent = [hr] \<and> messages (body hr) = ?ams \<and> messages (body hr) \<noteq> []
             \<and> (\<forall>i < length (messages (body hr)).
                   Message.role (messages (body hr) ! i)
                     = (if even i then ''user'' else ''assistant''))
             \<and> Message.role (hd (messages (body hr))) = ''user''
             \<and> Message.role (last (messages (body hr))) = ''user''"
      using sent_ams hd_user anthropicMessages_alternate[of _ request] by auto
    show "\<forall>m. message request = Some m \<and> m \<noteq> []
            \<longrightarrow> combinedMessages request
                  = (case ChatApiRequest.messages request of None \<Rightarrow> [] | Some ms \<Rightarrow> ms)
                    @ [\<lparr>Message.role = ''user'', content = m\<rparr>]"
      by (simp add: combinedMessages_def)
    show "\<forall>m hr. message request = Some m \<and> m \<noteq> [] \<and> hr \<in> set sent
            \<longrightarrow> messages (body hr)
                  = (if anthropicMessages (request\<lparr>message := None\<rparr>) = []
                        \<or> Message.role (last (anthropicMessages (request\<lparr>message := None\<rparr>)))
                            = ''assistant''
                     then anthropicMessages (request\<lparr>message := None\<rparr>)
                          @ [\<lparr>Message.role = ''user'', content = m\<rparr>]
                     else anthropicMessages (request\<lparr>message := None\<rparr>))"
    proof (intro allI impI)
      fix m hr
      assume h: "message request = Some m \<and> m \<noteq> [] \<and> hr \<in> set sent"
      with sent_ams have "messages (body hr) = ?ams" by blast
      with anthropicMessages_new_message[of request m] h
      show "messages (body hr)
              = (if anthropicMessages (request\<lparr>message := None\<rparr>) = []
                    \<or> Message.role (last (anthropicMessages (request\<lparr>message := None\<rparr>)))
                        = ''assistant''
                 then anthropicMessages (request\<lparr>message := None\<rparr>)
                      @ [\<lparr>Message.role = ''user'', content = m\<rparr>]
                 else anthropicMessages (request\<lparr>message := None\<rparr>))"
        by simp
    qed
  qed
qed

theorem sent_messages_alternate_witness:
  "sendMessage ''key'' sample_stringifies (recording_fetch ok_reply) [] history_request
     ''anthropic-claude-3''
     = (Inr \<lparr>AdapterResponsePayload.role = ''assistant'', content = ''hi'',
             ai_provider_id = ''p1'', system_prompt_id = Some ''prompt-7'',
             token_usage = Some \<lparr>prompt_tokens = Some (Finite 3),
                                 completion_tokens = Some (Finite 1),
                                 total_tokens = Some (Finite 4), finish_reason = None\<rparr>,
             finish_reason = Some ''length''\<rparr>,
        [history_sent])
   \<and> map Message.role (messages (body history_sent))
       = [''user'', ''assistant'', ''user'', ''assistant'', ''user'']
   \<and> messages (body history_sent) = anthropicMessages history_request
   \<and> message history_request = Some ''e''
   \<and> Message.role (last (anthropicMessages (history_request\<lparr>message := None\<rparr>)))
       = ''assistant''
   \<and> messages (body history_sent)
       = anthropicMessages (history_request\<lparr>message := None\<rparr>)
         @ [\<lparr>Message.role = ''user'', content = ''e''\<rparr>]
   \<and> anthropicMessages empty_request = []
   \<and> sendMessage ''key'' sample_stringifies (recording_fetch ok_reply) [] empty_request
        ''anthropic-claude-3''
       = (Inl NoValidMessages, [])
   \<and> anthropicMessages assistant_last_request \<noteq> []
   \<and> Message.role (last (anthropicMessages assistant_last_request)) = ''assistant''
   \<and> sendMessage ''key'' sample_stringifies (recording_fetch ok_reply) []
        assistant_last_request ''anthropic-claude-3''
       = (Inl HistoryFormatInvalid, [])"
proof -
  have roles: "map Message.role (messages (body history_sent))
                 = [''user'', ''assistant'', ''user'', ''assistant'', ''user'']"
    by (simp add: history_sent_def)
  have e: "anthropicMessages empty_request = []"
    by (simp add: anthropicMessages_def combinedMessages_def empty_request_def)
  have a: "anthropicMessages assistant_last_request
             = [\<lparr>Message.role = ''user'', content = ''a''\<rparr>,
                \<lparr>Message.role = ''assistant'', content = ''b''\<rparr>]"
    by (simp add: anthropicMessages_def combinedMessages_def assistant_last_request_def)
  have m: "message history_request = Some ''e''"
    by (simp add: history_request_def)
  have before: "anthropicMessages (history_request\<lparr>message := None\<rparr>)
                  = [\<lparr>Message.role = ''user'', content = ''a''\<rparr>,
                     \<lparr>Message.role = ''assistant'', content = ''b''\<rparr>,
                     \<lparr>Message.role = ''user'', content = ''c''\<rparr>,
                     \<lparr>Message.role = ''assistant'', content = ''d''\<rparr>]"
    by (simp add: anthropicMessages_def combinedMessages_def history_request_def)
  then have last_before:
    "Message.role (last (anthropicMessages (history_request\<lparr>message := None\<rparr>)))
       = ''assistant''"
    by simp
  from sent_messages_alternate[OF history_send]
  have h: "messages (body history_sent) = anthropicMessages history_request"
    by auto
  from sent_messages_alternate[OF history_send] m last_before
  have new_last: "messages (body history_sent)
                    = anthropicMessages (history_request\<lparr>message := None\<rparr>)
                      @ [\<lparr>Message.role = ''user'', content = ''e''\<rparr>]"
    by auto
  from sent_messages_alternate[OF empty_send] e
  have e': "sendMessage ''key'' sample_stringifies (recording_fetch ok_reply) [] empty_request
              ''anthropic-claude-3'' = (Inl NoValidMessages, [])"
    using empty_send by simp
  from sent_messages_alternate[OF assistant_last_send] a
  have a': "sendMessage ''key'' sample_stringifies (recording_fetch ok_reply) []
              assistant_last_request ''anthropic-claude-3'' = (Inl HistoryFormatInvalid, [])"
    using assistant_last_send by simp
  from a have a'': "anthropicMessages assistant_last_request \<noteq> []"
    "Message.role (last (anthropicMessages assistant_last_request)) = ''assistant''"
    by simp_all
  from history_send roles h m last_before new_last e e' a' a'' show ?thesis by blast
qed

text \<open>
  Claim C6 as stated fails where it has the sequence sent end with the new message. With
  a history of one user message \<^verbatim>\<open>a\<close> and the new message \<^verbatim>\<open>b\<close>, the request sent
  carries \<^verbatim>\<open>a\<close> alone: the new message is skipped and the provider answers the old one.
\<close>

theorem new_message_skipped_after_user:
  "sendMessage ''key'' sample_stringifies (recording_fetch ok_reply) [] user_last_request
     ''anthropic-claude-3''
     = (Inr \<lparr>AdapterResponsePayload.role = ''assistant'', content = ''hi'',
             ai_provider_id = ''p1'', system_prompt_id = None,
             token_usage = Some \<lparr>prompt_tokens = Some (Finite 3),
                                 completion_tokens = Some (Finite 1),
                                 total_tokens = Some (Finite 4), finish_reason = None\<rparr>,
             finish_reason = Some ''length''\<rparr>,
        [\<lparr>url = ''https://api.anthropic.com/v1/messages'', x_api_key = ''key'',
          anthropic_version = ''2023-06-01'',
          body = \<lparr>model = ''claude-3'', system = None,
                   messages = [\<lparr>Message.role = ''user'', content = ''a''\<rparr>],
                   max_tokens = 4096\<rparr>\<rparr>])
   \<and> message user_last_request = Some ''b''
   \<and> ChatApiRequest.messages user_last_request
       = Some [\<lparr>Message.role = ''user'', content = ''a''\<rparr>]"
  by code_simp








section \<open>Properties of the canonical path builder\<close>

lemma map_filter_set: "set (List.map_filter f xs) = {y. \<exists>x \<in> set xs. f x = Some y}"
  by (induction xs) (auto simp: map_filter_simps split: option.splits)

lemma slugs_by_set:
  "sort (remdups (List.map_filter f xs)) = sorted_list_of_set {y. \<exists>x \<in> set xs. f x = Some y}"
  by (simp add: sorted_list_of_set_sort_remdups map_filter_set[symmetric])

text \<open>
  Claim C8. For every sequence of source documents, \<^verbatim>\<open>sourceModelSlugs\<close> of
  \<^verbatim>\<open>createCanonicalPathParams\<close> is present, sorted ascending in the lexicographic order of
  strings, free of duplicates, holds exactly the model slugs of the documents, and is the
  same for every other sequence of the same documents, in any order and with any
  repetitions.
\<close>

theorem source_model_slugs_sorted_distinct:
  "\<exists>slugs. sourceModelSlugs (createCanonicalPathParams sourceDocs outputType anchorDoc)
             = Some slugs
      \<and> sorted slugs \<and> distinct slugs
      \<and> set slugs = {s. \<exists>d \<in> set sourceDocs. model_name d = Some s}
      \<and> (\<forall>docs. set docs = set sourceDocs
            \<longrightarrow> sourceModelSlugs (createCanonicalPathParams docs outputType anchorDoc)
                  = Some slugs)"
proof -
  let ?slugs = "sort (remdups (List.map_filter model_name sourceDocs))"
  have "sourceModelSlugs (createCanonicalPathParams sourceDocs outputType anchorDoc)
          = Some ?slugs"
    by (simp add: createCanonicalPathParams_def)
  moreover have "sorted ?slugs" "distinct ?slugs"
    by simp_all
  moreover have "set ?slugs = {s. \<exists>d \<in> set sourceDocs. model_name d = Some s}"
    by (simp add: map_filter_set)
  moreover have "sourceModelSlugs (createCanonicalPathParams docs outputType anchorDoc)
                   = Some ?slugs"
    if "set docs = set sourceDocs" for docs :: "'a SourceDocument_scheme list"
    using that by (simp add: createCanonicalPathParams_def slugs_by_set)
  ultimately show ?thesis by blast
qed

theorem source_model_slugs_sorted_distinct_witness:
  "sourceModelSlugs (createCanonicalPathParams [doc_gpt, doc_claude, doc_gpt] ''synthesis'' doc_gpt)
     = Some [''claude-y'', ''gpt-x'']
   \<and> set [doc_claude, doc_gpt] = set [doc_gpt, doc_claude, doc_gpt]
   \<and> sourceModelSlugs (createCanonicalPathParams [doc_claude, doc_gpt] ''synthesis'' doc_gpt)
       = Some [''claude-y'', ''gpt-x'']
   \<and> sorted [''claude-y'', ''gpt-x''] \<and> distinct [''claude-y'', ''gpt-x'']"
proof -
  have run: "sourceModelSlugs
               (createCanonicalPathParams [doc_gpt, doc_claude, doc_gpt] ''synthesis'' doc_gpt)
             = Some [''claude-y'', ''gpt-x'']"
    by code_simp
  have s: "set [doc_claude, doc_gpt] = set [doc_gpt, doc_claude, doc_gpt]"
    by auto
  from source_model_slugs_sorted_distinct
         [of "[doc_gpt, doc_claude, doc_gpt]" "''synthesis''" doc_gpt] run s
  show ?thesis by auto
qed

end
